theory Spec2Isabelle
  imports Complex_Main
begin

section \<open>Numbers\<close>

text \<open>
  The two components compute with JavaScript numbers. Arguments and fields that the
  source types as \<^verbatim>\<open>number\<close> and that hold measurements, coordinates or
  generated samples are finite and are modelled as \<^typ>\<open>real\<close>: arithmetic on them is
  exact, so the rounding of IEEE doubles is not part of the model. Division is the one
  operation of the two components that leaves the finite range on finite arguments
  (\<^verbatim>\<open>0/0\<close> is \<^verbatim>\<open>NaN\<close>, \<^verbatim>\<open>1/0\<close> is \<^verbatim>\<open>Infinity\<close>), so a quotient and
  everything computed from it has the type \<open>number\<close> below, with the IEEE rules for the
  special values written out. There is one zero: the sign of a zero is not modelled.
\<close>

datatype number = Num real | PosInfinity | NegInfinity | NaN

fun jdiv :: "number \<Rightarrow> number \<Rightarrow> number" where
  "jdiv (Num a) (Num b) =
     (if b = 0 then (if a = 0 then NaN else if 0 < a then PosInfinity else NegInfinity)
      else Num (a / b))"
| "jdiv NaN _ = NaN"
| "jdiv _ NaN = NaN"
| "jdiv (Num a) _ = Num 0"
| "jdiv PosInfinity (Num b) = (if 0 \<le> b then PosInfinity else NegInfinity)"
| "jdiv NegInfinity (Num b) = (if 0 \<le> b then NegInfinity else PosInfinity)"
| "jdiv _ _ = NaN"

fun jsub :: "number \<Rightarrow> number \<Rightarrow> number" where
  "jsub (Num a) (Num b) = Num (a - b)"
| "jsub NaN _ = NaN"
| "jsub _ NaN = NaN"
| "jsub PosInfinity PosInfinity = NaN"
| "jsub NegInfinity NegInfinity = NaN"
| "jsub PosInfinity _ = PosInfinity"
| "jsub NegInfinity _ = NegInfinity"
| "jsub _ PosInfinity = NegInfinity"
| "jsub _ NegInfinity = PosInfinity"

fun jmul :: "number \<Rightarrow> number \<Rightarrow> number" where
  "jmul (Num a) (Num b) = Num (a * b)"
| "jmul NaN _ = NaN"
| "jmul _ NaN = NaN"
| "jmul PosInfinity (Num b) =
     (if b = 0 then NaN else if 0 < b then PosInfinity else NegInfinity)"
| "jmul NegInfinity (Num b) =
     (if b = 0 then NaN else if 0 < b then NegInfinity else PosInfinity)"
| "jmul (Num a) PosInfinity =
     (if a = 0 then NaN else if 0 < a then PosInfinity else NegInfinity)"
| "jmul (Num a) NegInfinity =
     (if a = 0 then NaN else if 0 < a then NegInfinity else PosInfinity)"
| "jmul PosInfinity PosInfinity = PosInfinity"
| "jmul NegInfinity NegInfinity = PosInfinity"
| "jmul _ _ = NegInfinity"

fun jabs :: "number \<Rightarrow> number" where
  "jabs (Num a) = Num \<bar>a\<bar>"
| "jabs NaN = NaN"
| "jabs _ = PosInfinity"

text \<open>\<^verbatim>\<open>a < b\<close>: every comparison with \<^verbatim>\<open>NaN\<close> is false.\<close>

fun jlt :: "number \<Rightarrow> number \<Rightarrow> bool" where
  "jlt (Num a) (Num b) = (a < b)"
| "jlt NaN _ = False"
| "jlt _ NaN = False"
| "jlt PosInfinity _ = False"
| "jlt _ NegInfinity = False"
| "jlt _ _ = True"

text \<open>\<^verbatim>\<open>a <= b\<close>.\<close>

fun jle :: "number \<Rightarrow> number \<Rightarrow> bool" where
  "jle (Num a) (Num b) = (a \<le> b)"
| "jle NaN _ = False"
| "jle _ NaN = False"
| "jle NegInfinity _ = True"
| "jle _ PosInfinity = True"
| "jle _ _ = False"

text \<open>
  \<^verbatim>\<open>parseFloat(x.toFixed(f))\<close>. \<^verbatim>\<open>toFixed\<close> prints the sign and then, for the
  absolute value, the integer \<open>n\<close> with \<open>n / 10^f\<close> nearest to it, the larger one of two
  equally near; from \<open>10^21\<close> on it prints the number itself. \<^verbatim>\<open>parseFloat\<close> reads
  the decimal back.
\<close>

definition toFixed :: "nat \<Rightarrow> real \<Rightarrow> real" where
  "toFixed f x =
     (if 10 ^ 21 \<le> \<bar>x\<bar> then x
      else sgn x * (of_int \<lfloor>\<bar>x\<bar> * 10 ^ f + 1 / 2\<rfloor> / 10 ^ f))"

text \<open>
  \<^verbatim>\<open>a % b\<close> on numbers: the remainder has the sign of the dividend, the quotient is
  truncated towards zero. The source only divides by the literals 20 and 10.
\<close>

definition trunc :: "real \<Rightarrow> int" where
  "trunc x = (if 0 \<le> x then \<lfloor>x\<rfloor> else \<lceil>x\<rceil>)"

definition jrem :: "real \<Rightarrow> real \<Rightarrow> real" where
  "jrem a b = a - b * of_int (trunc (a / b))"

text \<open>
  \<^verbatim>\<open>xs.slice(start, end)\<close>: a negative index counts from the end, both indices are
  clamped to the array, and an empty range gives the empty array.
\<close>

definition relIndex :: "int \<Rightarrow> nat \<Rightarrow> nat" where
  "relIndex i len = (if i < 0 then nat (max (int len + i) 0) else min (nat i) len)"

definition slice :: "'a list \<Rightarrow> int \<Rightarrow> int \<Rightarrow> 'a list" where
  "slice xs start end =
     (let k = relIndex start (length xs); final = relIndex end (length xs)
      in take (final - k) (drop k xs))"

text \<open>\<^verbatim>\<open>xs.slice(start)\<close>: up to the end of the array.\<close>

definition sliceFrom :: "'a list \<Rightarrow> int \<Rightarrow> 'a list" where
  "sliceFrom xs start = drop (relIndex start (length xs)) xs"

section \<open>Satellite data indicators\<close>

subsection \<open>Data\<close>

text \<open>
  A \<^verbatim>\<open>DataPoint\<close> carries its date as the string \<^verbatim>\<open>YYYY-MM-DD\<close> that
  \<^verbatim>\<open>toISOString\<close> prints. The model keeps the number of the UTC day (days since
  1970-01-01) that the string denotes: two points have the same string exactly when they
  have the same day number, and the next calendar day is the next number.
\<close>

record DataPoint =
  date :: int
  "value" :: real

datatype trend = Up | Down | Stable

datatype status = Good | Warning | Poor

record IndicatorData =
  name :: string
  current :: real
  unit :: string
  trend :: trend
  change :: number
  history :: "DataPoint list"
  status :: status

subsection \<open>getIndicatorStatus\<close>

definition getIndicatorStatus :: "string \<Rightarrow> real \<Rightarrow> status" where
  "getIndicatorStatus nm v =
     (if nm = ''NDVI'' then
        (if v \<ge> 0.6 then Good else if v \<ge> 0.4 then Warning else Poor)
      else if nm = ''Soil Moisture'' then
        (if v \<ge> 30 \<and> v \<le> 50 then Good else if v \<ge> 20 \<and> v \<le> 60 then Warning else Poor)
      else if nm = ''Temperature'' then
        (if v \<ge> 15 \<and> v \<le> 25 then Good else if v \<ge> 10 \<and> v \<le> 30 then Warning else Poor)
      else Good)"

subsection \<open>calculateTrend\<close>

text \<open>
  \<^verbatim>\<open>reduce((sum, d) => sum + d.value, 0) / length\<close>: the sum of finite values is
  finite, the division is the one of \<open>number\<close>.
\<close>

definition average :: "DataPoint list \<Rightarrow> number" where
  "average ps = jdiv (Num (foldl (\<lambda>sum d. sum + value d) 0 ps)) (Num (real (length ps)))"

definition calculateTrend :: "DataPoint list \<Rightarrow> trend \<times> number" where
  "calculateTrend hist =
     (if length hist < 2 then (Stable, Num 0)
      else
        let recent = sliceFrom hist (- 3);
            older = slice hist (- 6) (- 3);
            recentAvg = average recent;
            olderAvg = average older;
            chg = jmul (jdiv (jsub recentAvg olderAvg) olderAvg) (Num 100)
        in if jlt (jabs chg) (Num 2) then (Stable, Num 0)
           else (if jlt (Num 0) chg then Up else Down, jabs chg))"

text \<open>The body of the \<^verbatim>\<open>indicators.forEach\<close> that fills in trend, change and status.\<close>

definition analyse :: "IndicatorData \<Rightarrow> IndicatorData" where
  "analyse ind =
     (let (t, c) = calculateTrend (history ind)
      in ind\<lparr>trend := t, change := c,
             status := getIndicatorStatus (name ind) (current ind)\<rparr>)"

subsection \<open>Time\<close>

text \<open>
  A \<^verbatim>\<open>Date\<close> is a time value: milliseconds since 1970-01-01T00:00Z. The
  language definition reads and writes its local fields through the time zone
  adjustment of the host, \<open>LocalTZA(t, isUTC)\<close>: \<open>LocalTime(t) = t + LocalTZA(t, true)\<close>
  and \<open>UTC(t) = t - LocalTZA(t, false)\<close>. The adjustment is a parameter of the model, and
  so is the clock: \<^verbatim>\<open>new Date()\<close> is the argument \<open>today\<close>.
\<close>

type_synonym tza = "bool \<Rightarrow> int \<Rightarrow> int"

definition msPerDay :: int where
  "msPerDay = 86400000"

definition LocalTime :: "tza \<Rightarrow> int \<Rightarrow> int" where
  "LocalTime z t = t + z True t"

definition UTC :: "tza \<Rightarrow> int \<Rightarrow> int" where
  "UTC z t = t - z False t"

text \<open>
  \<^verbatim>\<open>date.setDate(date.getDate() - i)\<close>: \<^verbatim>\<open>setDate\<close> rebuilds the local time
  from the year and month of the local time, the given day of the month and the local
  time within the day, which is the local time \<open>i\<close> days earlier, and stores its UTC
  time value.
\<close>

definition setDateBack :: "tza \<Rightarrow> int \<Rightarrow> int \<Rightarrow> int" where
  "setDateBack z t i = UTC z (LocalTime z t - i * msPerDay)"

text \<open>\<^verbatim>\<open>toISOString().split("T")[0]\<close>: the UTC day of the time value.\<close>

definition isoDate :: "int \<Rightarrow> int" where
  "isoDate t = t div msPerDay"

subsection \<open>generateHistoricalData\<close>

text \<open>
  \<open>rnd k\<close> is the result of the \<open>k\<close>-th call of \<^verbatim>\<open>Math.random()\<close>, counted from 0.
  The loop runs \<open>i\<close> from \<open>days - 1\<close> down to 0; its \<open>k\<close>-th round has \<open>i = days - 1 - k\<close>.
\<close>

definition generateHistoricalData ::
  "tza \<Rightarrow> int \<Rightarrow> (nat \<Rightarrow> real) \<Rightarrow> real \<Rightarrow> int \<Rightarrow> real \<Rightarrow> DataPoint list" where
  "generateHistoricalData z today rnd baseValue days variance =
     map (\<lambda>k.
            let i = days - 1 - int k;
                d = setDateBack z today i;
                randomChange = (rnd k - 0.5) * variance;
                v = max 0 (baseValue + randomChange)
            in \<lparr>date = isoDate d, value = toFixed 2 v\<rparr>)
         [0 ..< nat days]"

subsection \<open>The component\<close>

definition seed :: "real \<Rightarrow> real \<Rightarrow> real" where
  "seed latitude longitude = \<bar>sin (latitude * longitude) * 1000\<bar>"

definition ndviBase :: "real \<Rightarrow> real \<Rightarrow> real" where
  "ndviBase latitude longitude = 0.55 + jrem (seed latitude longitude) 20 / 100"

definition moistureBase :: "real \<Rightarrow> real \<Rightarrow> real" where
  "moistureBase latitude longitude = 30 + jrem (seed latitude longitude) 20"

definition tempBase :: "real \<Rightarrow> real \<Rightarrow> real" where
  "tempBase latitude longitude = 18 + jrem (seed latitude longitude) 10"

text \<open>
  The three indicators, in the order of the array. The three histories draw from
  \<^verbatim>\<open>Math.random()\<close> one after the other. The unit of the temperature is the five
  bytes of the source's literal.
\<close>

definition indicators ::
  "tza \<Rightarrow> int \<Rightarrow> (nat \<Rightarrow> real) \<Rightarrow> real \<Rightarrow> real \<Rightarrow> int \<Rightarrow> IndicatorData list" where
  "indicators z today rnd latitude longitude days =
     map analyse
       [\<lparr>name = ''NDVI'',
         current = toFixed 2 (ndviBase latitude longitude),
         unit = [],
         trend = Stable, change = Num 0,
         history = generateHistoricalData z today rnd (ndviBase latitude longitude) days 0.1,
         status = Good\<rparr>,
        \<lparr>name = ''Soil Moisture'',
         current = toFixed 1 (moistureBase latitude longitude),
         unit = ''%'',
         trend = Stable, change = Num 0,
         history = generateHistoricalData z today (\<lambda>k. rnd (nat days + k))
                     (moistureBase latitude longitude) days 5,
         status = Good\<rparr>,
        \<lparr>name = ''Temperature'',
         current = toFixed 1 (tempBase latitude longitude),
         unit = [CHR 0xC3, CHR 0x82, CHR 0xC2, CHR 0xB0, CHR ''C''],
         trend = Stable, change = Num 0,
         history = generateHistoricalData z today (\<lambda>k. rnd (2 * nat days + k))
                     (tempBase latitude longitude) days 3,
         status = Good\<rparr>]"

section \<open>Weather forecast\<close>

subsection \<open>Data\<close>

text \<open>
  An entry of \<^verbatim>\<open>data.list\<close>, with the fields the aggregation reads:
  \<^verbatim>\<open>dt\<close>, \<^verbatim>\<open>main.temp\<close>, \<^verbatim>\<open>main.humidity\<close>, \<^verbatim>\<open>wind.speed\<close>,
  \<^verbatim>\<open>rain?.["3h"]\<close> (absent in a dry window) and the first element of \<^verbatim>\<open>weather\<close>,
  which the provider always sends. The numbers come out of a JSON document and are
  finite.
\<close>

record item =
  dt :: int
  main_temp :: real
  main_humidity :: real
  wind_speed :: real
  rain_3h :: "real option"
  weather_0_main :: string
  weather_0_description :: string
  weather_0_icon :: string

text \<open>
  A \<^verbatim>\<open>ForecastDay\<close>; \<open>forecast_date\<close> is the time value of its \<^verbatim>\<open>date\<close>.
\<close>

record ForecastDay =
  forecast_date :: int
  temp_min :: number
  temp_max :: number
  weather_main :: string
  weather_description :: string
  precipitation :: real
  wind :: real
  humidity :: real
  icon :: string

datatype error = TypeError

subsection \<open>Objects as dictionaries\<close>

text \<open>
  \<^verbatim>\<open>dailyData\<close> and \<^verbatim>\<open>weatherCounts\<close> are objects used as dictionaries. An
  object lists its string keys in the order in which they were first assigned, and an
  assignment to a key it has keeps the key's place: an association list with distinct
  keys. (The keys here are dates with hyphens and the provider's condition words;
  a key that is a decimal array index or the name of a member of
  \<^verbatim>\<open>Object.prototype\<close> behaves otherwise and is outside the model.)
\<close>

fun assign :: "'k \<Rightarrow> 'v \<Rightarrow> ('k \<times> 'v) list \<Rightarrow> ('k \<times> 'v) list" where
  "assign k v [] = [(k, v)]"
| "assign k v (p # ps) = (if fst p = k then (k, v) # ps else p # assign k v ps)"

subsection \<open>Grouping by day\<close>

text \<open>
  \<^verbatim>\<open>format(new Date(item.dt * 1000), "yyyy-MM-dd")\<close> prints the local calendar day
  of the entry; the model keeps the number of that day, as for \<open>DataPoint\<close>.
\<close>

definition dateKey :: "tza \<Rightarrow> item \<Rightarrow> int" where
  "dateKey z it = LocalTime z (dt it * 1000) div msPerDay"

definition groupStep :: "tza \<Rightarrow> (int \<times> item list) list \<Rightarrow> item \<Rightarrow> (int \<times> item list) list" where
  "groupStep z dailyData it =
     (let d = dateKey z it
      in case map_of dailyData d of
           None \<Rightarrow> assign d [it] dailyData
         | Some dayData \<Rightarrow> assign d (dayData @ [it]) dailyData)"

definition groupByDay :: "tza \<Rightarrow> item list \<Rightarrow> (int \<times> item list) list" where
  "groupByDay z items = foldl (groupStep z) [] items"

subsection \<open>The aggregates of one day\<close>

text \<open>\<^verbatim>\<open>Math.min(...xs)\<close> and \<^verbatim>\<open>Math.max(...xs)\<close>; without arguments they are infinite.\<close>

fun Math_min :: "real list \<Rightarrow> number" where
  "Math_min [] = PosInfinity"
| "Math_min (x # xs) = Num (foldl min x xs)"

fun Math_max :: "real list \<Rightarrow> number" where
  "Math_max [] = NegInfinity"
| "Math_max (x # xs) = Num (foldl max x xs)"

text \<open>\<^verbatim>\<open>xs.reduce(f)\<close> without an initial value throws on an empty array.\<close>

fun reduce1 :: "('a \<Rightarrow> 'a \<Rightarrow> 'a) \<Rightarrow> 'a list \<Rightarrow> error + 'a" where
  "reduce1 f [] = Inl TypeError"
| "reduce1 f (x # xs) = Inr (foldl f x xs)"

text \<open>
  \<^verbatim>\<open>weatherCounts[k] || 0\<close>. The \<^verbatim>\<open>reduce\<close> reads \<^verbatim>\<open>weatherCounts[k]\<close> only at
  keys of the object, where it is the stored count.
\<close>

definition countOf :: "(string \<times> nat) list \<Rightarrow> string \<Rightarrow> nat" where
  "countOf weatherCounts k = (case map_of weatherCounts k of None \<Rightarrow> 0 | Some c \<Rightarrow> c)"

definition countStep :: "(string \<times> nat) list \<Rightarrow> item \<Rightarrow> (string \<times> nat) list" where
  "countStep weatherCounts d =
     (let weather = weather_0_main d
      in assign weather (countOf weatherCounts weather + 1) weatherCounts)"

definition mainWeather :: "item list \<Rightarrow> error + string" where
  "mainWeather dayData =
     (let weatherCounts = foldl countStep [] dayData
      in reduce1 (\<lambda>a b. if countOf weatherCounts a > countOf weatherCounts b then a else b)
           (map fst weatherCounts))"

text \<open>
  The body of the loop over the days. The two divisions are reached only after the
  \<^verbatim>\<open>reduce\<close> has returned, hence with at least one entry, and stay finite.
\<close>

definition aggregateDay :: "int \<times> item list \<Rightarrow> error + ForecastDay" where
  "aggregateDay e =
     (let dateStr = fst e; dayData = snd e;
          temps = map main_temp dayData;
          rain = foldl (\<lambda>sum d. sum + (case rain_3h d of None \<Rightarrow> 0 | Some r \<Rightarrow> r)) 0 dayData;
          winds = map wind_speed dayData;
          humidities = map main_humidity dayData
      in case mainWeather dayData of
           Inl err \<Rightarrow> Inl err
         | Inr mw \<Rightarrow>
             let middleIndex = length dayData div 2
             in if middleIndex < length dayData then
                  let representativeData = dayData ! middleIndex
                  in Inr \<lparr>forecast_date = dateStr * msPerDay,
                          temp_min = Math_min temps,
                          temp_max = Math_max temps,
                          weather_main = mw,
                          weather_description = weather_0_description representativeData,
                          precipitation = rain,
                          wind = foldl (+) 0 winds / real (length winds),
                          humidity = foldl (+) 0 humidities / real (length humidities),
                          icon = weather_0_icon representativeData\<rparr>
                else Inl TypeError)"

subsection \<open>The aggregation\<close>

text \<open>
  \<^verbatim>\<open>forEach\<close> with \<^verbatim>\<open>push\<close>: the days in order; an exception in one day ends the
  aggregation, and \<^verbatim>\<open>setForecast\<close> is not reached.
\<close>

fun forEachDay :: "(int \<times> item list) list \<Rightarrow> error + ForecastDay list" where
  "forEachDay [] = Inr []"
| "forEachDay (e # es) =
     (case aggregateDay e of
        Inl err \<Rightarrow> Inl err
      | Inr day \<Rightarrow> (case forEachDay es of Inl err \<Rightarrow> Inl err | Inr days \<Rightarrow> Inr (day # days)))"

definition aggregateForecast :: "tza \<Rightarrow> item list \<Rightarrow> error + ForecastDay list" where
  "aggregateForecast z items = forEachDay (slice (groupByDay z items) 0 7)"

section \<open>Notions used in the statements\<close>

text \<open>
  The distinct elements of a list in the order of their first occurrence: the order in
  which an object lists the keys that a loop over the list has assigned.
\<close>

definition firstSeen :: "'a list \<Rightarrow> 'a list" where
  "firstSeen xs = rev (remdups (rev xs))"

text \<open>
  The first label, in first-seen order, whose number of occurrences is maximal: the
  dominant condition of a day under the tie-break "first label reaching the max count".
\<close>

definition firstWithMaxCount :: "string list \<Rightarrow> string option" where
  "firstWithMaxCount labels =
     find (\<lambda>l. list_all (\<lambda>l'. count_list labels l' \<le> count_list labels l) labels)
       (firstSeen labels)"

subsection \<open>Hosts and inputs of the examples\<close>

text \<open>A host whose local time is UTC.\<close>

definition utc :: tza where
  "utc isUTC t = 0"

text \<open>
  A host in the zone Europe/Berlin around the start of summer time in 2024: the offset
  is one hour until 2024-03-31T01:00Z and two hours from then on; a local time before
  03:00 of that day is read with the offset of one hour.
\<close>

definition europeBerlin2024 :: tza where
  "europeBerlin2024 isUTC t =
     (if isUTC then (if t < 1711846800000 then 3600000 else 7200000)
      else (if t < 1711854000000 then 3600000 else 7200000))"

text \<open>A forecast entry at \<open>t\<close> seconds with temperature \<open>c\<close> and condition \<open>w\<close>.\<close>

definition entry :: "int \<Rightarrow> real \<Rightarrow> string \<Rightarrow> item" where
  "entry t c w =
     \<lparr>dt = t, main_temp = c, main_humidity = 60, wind_speed = 4, rain_3h = None,
      weather_0_main = w, weather_0_description = w, weather_0_icon = ''10d''\<rparr>"

text \<open>Three entries of one day, and one entry on each of eight consecutive days.\<close>

definition rainyDay :: "item list" where
  "rainyDay = [entry 0 10 ''Rain'', entry 10800 15 ''Rain'', entry 21600 20 ''Clear'']"

definition eightDays :: "item list" where
  "eightDays =
     [entry 0 10 ''Rain'', entry 86400 11 ''Rain'', entry 172800 12 ''Clear'',
      entry 259200 13 ''Clear'', entry 345600 14 ''Clouds'', entry 432000 15 ''Clear'',
      entry 518400 16 ''Rain'', entry 604800 17 ''Snow'']"

section \<open>Status classification\<close>

text \<open>
  C4. For every indicator name and every value, \<open>getIndicatorStatus\<close> returns the status
  of the threshold table. NDVI: good iff the value is at least 0.6, warning iff it is in
  [0.4, 0.6), poor iff it is below 0.4. Soil Moisture: good iff in [30, 50], warning iff
  in [20, 30) or (50, 60], poor otherwise. Temperature: good iff in [15, 25], warning iff
  in [10, 15) or (25, 30], poor otherwise. Every other name: good.
\<close>

theorem getIndicatorStatus_table:
  "(getIndicatorStatus ''NDVI'' v = Good \<longleftrightarrow> v \<ge> 0.6)
 \<and> (getIndicatorStatus ''NDVI'' v = Warning \<longleftrightarrow> 0.4 \<le> v \<and> v < 0.6)
 \<and> (getIndicatorStatus ''NDVI'' v = Poor \<longleftrightarrow> v < 0.4)
 \<and> (getIndicatorStatus ''Soil Moisture'' v = Good \<longleftrightarrow> 30 \<le> v \<and> v \<le> 50)
 \<and> (getIndicatorStatus ''Soil Moisture'' v = Warning
       \<longleftrightarrow> (20 \<le> v \<and> v < 30) \<or> (50 < v \<and> v \<le> 60))
 \<and> (getIndicatorStatus ''Soil Moisture'' v = Poor \<longleftrightarrow> v < 20 \<or> 60 < v)
 \<and> (getIndicatorStatus ''Temperature'' v = Good \<longleftrightarrow> 15 \<le> v \<and> v \<le> 25)
 \<and> (getIndicatorStatus ''Temperature'' v = Warning
       \<longleftrightarrow> (10 \<le> v \<and> v < 15) \<or> (25 < v \<and> v \<le> 30))
 \<and> (getIndicatorStatus ''Temperature'' v = Poor \<longleftrightarrow> v < 10 \<or> 30 < v)
 \<and> (nm \<notin> {''NDVI'', ''Soil Moisture'', ''Temperature''} \<longrightarrow> getIndicatorStatus nm v = Good)"
  by (auto simp add: getIndicatorStatus_def)

theorem getIndicatorStatus_table_witness:
  "''NDWI'' \<notin> {''NDVI'', ''Soil Moisture'', ''Temperature''}
   \<and> getIndicatorStatus ''NDWI'' 0.1 = Good
   \<and> getIndicatorStatus ''NDVI'' 0.1 = Poor
   \<and> getIndicatorStatus ''Soil Moisture'' 55 = Warning
   \<and> getIndicatorStatus ''Temperature'' 25 = Good"
  using getIndicatorStatus_table [of "0.1" "''NDWI''"]
    getIndicatorStatus_table [of 55 "''NDWI''"] getIndicatorStatus_table [of 25 "''NDWI''"]
  by simp

text \<open>
  C6. Two indicators with the same name and the same current value get the same status
  from the analysis, whatever their histories (and their other fields) are.
\<close>

theorem status_independent_of_history:
  "name a = name b \<Longrightarrow> current a = current b \<Longrightarrow> status (analyse a) = status (analyse b)"
  by (simp add: analyse_def Let_def split: prod.splits)

theorem status_independent_of_history_witness:
  "status (analyse \<lparr>name = ''NDVI'', current = 0.5, unit = [], trend = Stable, change = Num 0,
              history = [], status = Good\<rparr>)
   = status (analyse \<lparr>name = ''NDVI'', current = 0.5, unit = [], trend = Up, change = Num 7,
              history = [\<lparr>date = 0, value = 1\<rparr>, \<lparr>date = 1, value = 3\<rparr>], status = Poor\<rparr>)"
  using status_independent_of_history
    [of "\<lparr>name = ''NDVI'', current = 0.5, unit = [], trend = Stable, change = Num 0,
              history = [], status = Good\<rparr>"
        "\<lparr>name = ''NDVI'', current = 0.5, unit = [], trend = Up, change = Num 7,
              history = [\<lparr>date = 0, value = 1\<rparr>, \<lparr>date = 1, value = 3\<rparr>], status = Poor\<rparr>"]
  by simp

section \<open>Trend\<close>

lemma average_Nil: "average [] = NaN"
  by (simp add: average_def)

lemma older_window_empty: "slice hist (- 6) (- 3) = [] \<longleftrightarrow> length hist \<le> 3"
  by (auto simp add: slice_def relIndex_def Let_def max_def)

text \<open>A history shorter than two points is stable.\<close>

lemma calculateTrend_below_two:
  "length hist < 2 \<Longrightarrow> calculateTrend hist = (Stable, Num 0)"
  by (simp add: calculateTrend_def)

text \<open>
  With two or three points the older window is empty, its mean is \<^verbatim>\<open>0/0\<close>, and the
  function returns a falling trend of magnitude \<^verbatim>\<open>NaN\<close>.
\<close>

lemma calculateTrend_two_or_three:
  assumes "2 \<le> length hist" "length hist \<le> 3"
  shows "calculateTrend hist = (Down, NaN)"
proof -
  have older: "average (slice hist (- 6) (- 3)) = NaN"
    using assms older_window_empty [of hist] by (simp add: average_Nil)
  have sub: "jsub x NaN = NaN" for x by (cases x) simp_all
  show ?thesis using assms
    by (simp add: calculateTrend_def Let_def older sub)
qed

text \<open>
  Whenever the magnitude is not \<^verbatim>\<open>NaN\<close>, it is non-negative and it is 0 exactly for a
  stable trend.
\<close>

lemma calculateTrend_magnitude:
  assumes "calculateTrend hist = (t, m)" "m \<noteq> NaN"
  shows "jle (Num 0) m \<and> (m = Num 0 \<longleftrightarrow> t = Stable)"
proof (cases "length hist < 2")
  case True
  then show ?thesis using assms by (auto simp add: calculateTrend_def)
next
  case False
  define chg where "chg = jmul (jdiv (jsub (average (sliceFrom hist (- 3)))
       (average (slice hist (- 6) (- 3)))) (average (slice hist (- 6) (- 3)))) (Num 100)"
  have ct: "calculateTrend hist = (if jlt (jabs chg) (Num 2) then (Stable, Num 0)
           else (if jlt (Num 0) chg then Up else Down, jabs chg))"
    using False by (simp add: calculateTrend_def Let_def chg_def)
  show ?thesis using assms unfolding ct
    by (cases chg) (auto split: if_splits)
qed

text \<open>A percent change of absolute value below 2 gives a stable trend.\<close>

lemma calculateTrend_stable_band:
  assumes "2 \<le> length hist"
    and "jmul (jdiv (jsub (average (sliceFrom hist (- 3))) (average (slice hist (- 6) (- 3))))
           (average (slice hist (- 6) (- 3)))) (Num 100) = Num c"
    and "\<bar>c\<bar> < 2"
  shows "calculateTrend hist = (Stable, Num 0)"
  using assms by (simp add: calculateTrend_def Let_def)

text \<open>
  C1. The claim: \<open>calculateTrend\<close> returns \<open>Stable\<close> with magnitude 0 whenever the older
  window is empty or its mean is 0. The function does not: for the two samples 1, 1 the
  older window is empty and the result is \<open>Down\<close> with magnitude \<^verbatim>\<open>NaN\<close>; for the
  six samples 0, 0, 0, 1, 1, 1 the older window has mean 0 and the result is \<open>Up\<close> with
  magnitude \<^verbatim>\<open>Infinity\<close>.
\<close>

theorem calculateTrend_empty_older_window:
  "slice [\<lparr>date = 0, value = 1\<rparr>, \<lparr>date = 1, value = 1\<rparr>] (- 6) (- 3) = []
   \<and> calculateTrend [\<lparr>date = 0, value = 1\<rparr>, \<lparr>date = 1, value = 1\<rparr>] = (Down, NaN)
   \<and> average (slice (map (\<lambda>v. \<lparr>date = 0, value = v\<rparr>) [0, 0, 0, 1, 1, 1]) (- 6) (- 3)) = Num 0
   \<and> calculateTrend (map (\<lambda>v. \<lparr>date = 0, value = v\<rparr>) [0, 0, 0, 1, 1, 1]) = (Up, PosInfinity)"
  by (simp add: calculateTrend_def sliceFrom_def slice_def relIndex_def average_def Let_def)

text \<open>
  C7. The claim: for every history the magnitude of the trend is non-negative, and it is
  0 exactly when the direction is \<open>Stable\<close>. For the three samples 1, 2, 3 the older
  window is empty and the function returns \<open>Down\<close> with magnitude \<^verbatim>\<open>NaN\<close>, which is
  not a non-negative number.
\<close>

theorem trend_magnitude_not_a_number:
  "calculateTrend [\<lparr>date = 0, value = 1\<rparr>, \<lparr>date = 1, value = 2\<rparr>, \<lparr>date = 2, value = 3\<rparr>]
     = (Down, NaN) \<and> \<not> jle (Num 0) NaN"
  by (simp add: calculateTrend_def sliceFrom_def slice_def relIndex_def average_def Let_def)

section \<open>History synthesis\<close>

lemma length_generateHistoricalData:
  "length (generateHistoricalData z today rnd b days v) = nat days"
  by (simp add: generateHistoricalData_def)

lemma toFixed_nonneg: "0 \<le> x \<Longrightarrow> 0 \<le> toFixed f x"
  by (simp add: toFixed_def sgn_if)

lemma value_generateHistoricalData:
  assumes "k < nat days"
  shows "value (generateHistoricalData z today rnd b days v ! k)
           = toFixed 2 (max 0 (b + (rnd k - 0.5) * v))"
  using assms by (simp add: generateHistoricalData_def Let_def)

lemma generateHistoricalData_nonneg:
  assumes "p \<in> set (generateHistoricalData z today rnd b days v)"
  shows "0 \<le> value p"
  using assms by (auto simp add: generateHistoricalData_def Let_def toFixed_nonneg)

lemma randomChange_range:
  assumes "0 \<le> r" "r < 1" "0 \<le> (v::real)"
  shows "- v / 2 \<le> (r - 0.5) * v \<and> (r - 0.5) * v \<le> v / 2"
proof -
  have "- (1/2) * v \<le> (r - 0.5) * v" using assms by (intro mult_right_mono) auto
  moreover have "(r - 0.5) * v \<le> (1/2) * v" using assms by (intro mult_right_mono) auto
  ultimately show ?thesis by simp
qed

text \<open>
  On a host whose offset from UTC never changes, the dates are the consecutive UTC days
  that end with the UTC day of the clock.
\<close>

lemma date_generateHistoricalData_fixed_offset:
  assumes "k < nat days"
  shows "date (generateHistoricalData (\<lambda>_ _. c) today rnd b days v ! k)
           = isoDate today - (days - 1 - int k)"
proof -
  have "(today - (days - 1 - int k) * msPerDay) div msPerDay
          = today div msPerDay - (days - 1 - int k)"
    by (simp add: msPerDay_def div_diff)
  then show ?thesis using assms
    by (simp add: generateHistoricalData_def Let_def setDateBack_def UTC_def LocalTime_def
          isoDate_def)
qed

lemma upt_7: "[0..<7] = [0, 1, 2, 3, 4, 5, 6]"
  by (simp add: upt_rec)

text \<open>
  C5. The claim: the history has \<open>days\<close> samples, their dates increase by one calendar day
  and end today, and no value is negative. The count and the values are as claimed
  (\<open>length_generateHistoricalData\<close>, \<open>generateHistoricalData_nonneg\<close>,
  \<open>value_generateHistoricalData\<close>). The dates are not: the loop steps back in local time
  and prints the UTC date. In Berlin at 01:30 on 2024-04-01 (23:30Z on 2024-03-31, time
  value 1711927800000), the last two of seven samples both carry 2024-03-31 (day 19813),
  and no sample carries the local date 2024-04-01.
\<close>

theorem generateHistoricalData_repeats_a_date:
  "map date (generateHistoricalData europeBerlin2024 1711927800000 rnd b 7 v)
     = [19808, 19809, 19810, 19811, 19812, 19813, 19813]"
  by (simp add: generateHistoricalData_def upt_7 Let_def setDateBack_def UTC_def LocalTime_def
       europeBerlin2024_def isoDate_def msPerDay_def)

section \<open>Soil moisture\<close>

lemma jrem_range:
  assumes "0 \<le> a" "0 < b"
  shows "0 \<le> jrem a b \<and> jrem a b < b"
proof -
  have q: "0 \<le> a / b" using assms by simp
  have 1: "of_int \<lfloor>a / b\<rfloor> \<le> a / b" by simp
  have 2: "a / b < of_int \<lfloor>a / b\<rfloor> + 1" by linarith
  have "b * of_int \<lfloor>a / b\<rfloor> \<le> b * (a / b)"
    using 1 assms by (intro mult_left_mono) auto
  moreover have "b * (a / b) < b * (of_int \<lfloor>a / b\<rfloor> + 1)"
    using 2 assms by (intro mult_strict_left_mono) auto
  moreover have "b * (a / b) = a" using assms by simp
  ultimately have "b * of_int \<lfloor>a / b\<rfloor> \<le> a \<and> a < b * (of_int \<lfloor>a / b\<rfloor> + 1)"
    by simp
  then show ?thesis using q by (simp add: jrem_def trunc_def algebra_simps)
qed

lemma seed_nonneg: "0 \<le> seed latitude longitude"
  by (simp add: seed_def)

lemma toFixed_1_band:
  assumes "30 \<le> x" "x < 50"
  shows "30 \<le> toFixed 1 x \<and> toFixed 1 x \<le> 50"
proof -
  have a: "\<bar>x\<bar> = x" and s: "sgn x = 1" and small: "\<not> 10 ^ 21 \<le> \<bar>x\<bar>" using assms by auto
  have "(300::int) \<le> \<lfloor>x * 10 + 1 / 2\<rfloor>" using assms by (simp add: le_floor_iff)
  moreover have "\<lfloor>x * 10 + 1 / 2\<rfloor> \<le> (500::int)" using assms by (simp add: floor_le_iff)
  ultimately have "300 \<le> (of_int \<lfloor>x * 10 + 1 / 2\<rfloor> :: real)
      \<and> (of_int \<lfloor>x * 10 + 1 / 2\<rfloor> :: real) \<le> 500"
    by (metis of_int_le_iff of_int_numeral)
  then show ?thesis using a s small by (simp add: toFixed_def)
qed

text \<open>
  C10. For every latitude and longitude the soil moisture baseline \<open>30 + seed mod 20\<close> is
  in [30, 50), its rounding to one decimal is in [30, 50], the good band of Soil Moisture
  is exactly [30, 50], and the second indicator of the component is Soil Moisture with
  that rounded value and the status good.
\<close>

theorem soil_moisture_always_good:
  "30 \<le> moistureBase latitude longitude \<and> moistureBase latitude longitude < 50
   \<and> 30 \<le> toFixed 1 (moistureBase latitude longitude)
   \<and> toFixed 1 (moistureBase latitude longitude) \<le> 50
   \<and> (getIndicatorStatus ''Soil Moisture'' v = Good \<longleftrightarrow> 30 \<le> v \<and> v \<le> 50)
   \<and> map (\<lambda>i. (name i, current i, status i)) (indicators z today rnd latitude longitude days) ! 1
       = (''Soil Moisture'', toFixed 1 (moistureBase latitude longitude), Good)"
proof -
  have r: "0 \<le> jrem (seed latitude longitude) 20 \<and> jrem (seed latitude longitude) 20 < 20"
    by (rule jrem_range) (simp_all add: seed_nonneg)
  then have b: "30 \<le> moistureBase latitude longitude \<and> moistureBase latitude longitude < 50"
    by (simp add: moistureBase_def)
  then have c: "30 \<le> toFixed 1 (moistureBase latitude longitude)
     \<and> toFixed 1 (moistureBase latitude longitude) \<le> 50"
    using toFixed_1_band by blast
  have g: "getIndicatorStatus ''Soil Moisture'' v = Good \<longleftrightarrow> 30 \<le> v \<and> v \<le> 50"
    by (simp add: getIndicatorStatus_def)
  have s: "getIndicatorStatus ''Soil Moisture'' (toFixed 1 (moistureBase latitude longitude)) = Good"
    using c by (simp add: getIndicatorStatus_def)
  show ?thesis using b c g s
    by (simp add: indicators_def analyse_def Let_def split: prod.splits)
qed

section \<open>Forecast aggregation\<close>

subsection \<open>First-seen order\<close>

lemma firstSeen_Nil: "firstSeen [] = []"
  by (simp add: firstSeen_def)

lemma firstSeen_snoc:
  "firstSeen (xs @ [x]) = (if x \<in> set xs then firstSeen xs else firstSeen xs @ [x])"
  by (simp add: firstSeen_def)

lemma set_firstSeen: "set (firstSeen xs) = set xs"
  by (simp add: firstSeen_def)

lemma distinct_firstSeen: "distinct (firstSeen xs)"
  by (simp add: firstSeen_def)

lemma length_firstSeen: "length (firstSeen xs) = card (set xs)"
  by (simp add: firstSeen_def length_remdups_card_conv)

lemma firstSeen_sorted:
  fixes xs :: "int list"
  shows "sorted xs \<Longrightarrow> sorted_wrt (<) (firstSeen xs)"
proof (induction xs rule: rev_induct)
  case Nil
  then show ?case by (simp add: firstSeen_Nil)
next
  case (snoc x xs)
  then have s: "sorted xs" and le: "\<forall>y\<in>set xs. y \<le> x"
    by (auto simp add: sorted_append)
  show ?case
  proof (cases "x \<in> set xs")
    case True
    then show ?thesis using snoc.IH s by (simp add: firstSeen_snoc)
  next
    case False
    then have "\<forall>y\<in>set xs. y < x" using le by (auto simp add: less_le)
    then show ?thesis using snoc.IH s False
      by (simp add: firstSeen_snoc sorted_wrt_append set_firstSeen)
  qed
qed

text \<open>Assignment to a property of an object that lists its keys \<open>ks\<close>.\<close>

lemma assign_tabulate_absent:
  "k \<notin> set ks \<Longrightarrow> assign k v (map (\<lambda>x. (x, g x)) ks) = map (\<lambda>x. (x, g x)) ks @ [(k, v)]"
  by (induction ks) auto

lemma assign_tabulate_present:
  "k \<in> set ks \<Longrightarrow> distinct ks \<Longrightarrow>
   assign k v (map (\<lambda>x. (x, g x)) ks) = map (\<lambda>x. (x, if x = k then v else g x)) ks"
  by (induction ks) auto

lemma map_of_tabulate:
  "map_of (map (\<lambda>x. (x, g x)) ks) k = (if k \<in> set ks then Some (g k) else None)"
  by (induction ks) auto

text \<open>
  The groups: one per calendar day, in first-seen order of the days, each with the
  entries of its day in their order of arrival.
\<close>

lemma groupByDay_eq:
  "groupByDay z items =
     map (\<lambda>d. (d, filter (\<lambda>i. dateKey z i = d) items)) (firstSeen (map (dateKey z) items))"
proof (induction items rule: rev_induct)
  case Nil
  then show ?case by (simp add: groupByDay_def firstSeen_Nil)
next
  case (snoc it items)
  let ?ks = "firstSeen (map (dateKey z) items)"
  let ?k = "dateKey z it"
  let ?g = "\<lambda>d. filter (\<lambda>i. dateKey z i = d) items"
  let ?g' = "\<lambda>d. filter (\<lambda>i. dateKey z i = d) (items @ [it])"
  have step: "groupByDay z (items @ [it]) = groupStep z (map (\<lambda>d. (d, ?g d)) ?ks) it"
    using snoc.IH by (simp add: groupByDay_def)
  have keys: "map (dateKey z) (items @ [it]) = map (dateKey z) items @ [?k]" by simp
  show ?case
  proof (cases "?k \<in> set (map (dateKey z) items)")
    case True
    then have in_ks: "?k \<in> set ?ks" by (simp add: set_firstSeen)
    have g1: "groupStep z (map (\<lambda>d. (d, ?g d)) ?ks) it
            = map (\<lambda>d. (d, if d = ?k then ?g ?k @ [it] else ?g d)) ?ks"
      using in_ks
      by (simp add: groupStep_def Let_def map_of_tabulate assign_tabulate_present
            distinct_firstSeen)
    have g2: "map (\<lambda>d. (d, if d = ?k then ?g ?k @ [it] else ?g d)) ?ks = map (\<lambda>d. (d, ?g' d)) ?ks"
      by (rule map_cong) auto
    have fs: "firstSeen (map (dateKey z) items @ [?k]) = ?ks"
      using True by (simp add: firstSeen_snoc)
    show ?thesis by (simp only: step keys fs g1 g2)
  next
    case False
    then have out_ks: "?k \<notin> set ?ks" by (simp add: set_firstSeen)
    have "\<forall>i\<in>set items. dateKey z i \<noteq> ?k"
      using False by (metis image_eqI set_map)
    then have empty: "?g ?k = []" by (simp add: filter_empty_conv)
    have g1: "groupStep z (map (\<lambda>d. (d, ?g d)) ?ks) it = map (\<lambda>d. (d, ?g d)) ?ks @ [(?k, [it])]"
      using out_ks
      by (simp add: groupStep_def Let_def map_of_tabulate assign_tabulate_absent)
    have g2: "map (\<lambda>d. (d, ?g' d)) ?ks = map (\<lambda>d. (d, ?g d)) ?ks"
      using out_ks by (intro map_cong) auto
    have g3: "map (\<lambda>d. (d, ?g' d)) (?ks @ [?k]) = map (\<lambda>d. (d, ?g' d)) ?ks @ [(?k, [it])]"
      using empty by simp
    have fs: "firstSeen (map (dateKey z) items @ [?k]) = ?ks @ [?k]"
      using False by (simp add: firstSeen_snoc)
    show ?thesis by (simp only: step keys fs g1 g3 g2)
  qed
qed

lemma groupByDay_nonempty: "e \<in> set (groupByDay z items) \<Longrightarrow> snd e \<noteq> []"
  by (auto simp add: groupByDay_eq set_firstSeen filter_empty_conv)

lemma slice_0_7: "slice xs 0 7 = take 7 xs"
  by (simp add: slice_def relIndex_def Let_def min_def)

text \<open>The tally: one count per label, in first-seen order of the labels.\<close>

lemma weatherCounts_eq:
  "foldl countStep [] dayData =
     map (\<lambda>w. (w, count_list (map weather_0_main dayData) w))
       (firstSeen (map weather_0_main dayData))"
proof (induction dayData rule: rev_induct)
  case Nil
  then show ?case by (simp add: firstSeen_Nil)
next
  case (snoc d ds)
  let ?ls = "map weather_0_main ds"
  let ?w = "weather_0_main d"
  let ?ks = "firstSeen ?ls"
  let ?c = "\<lambda>w. count_list ?ls w"
  let ?c' = "\<lambda>w. count_list (?ls @ [?w]) w"
  have step: "foldl countStep [] (ds @ [d]) = countStep (map (\<lambda>w. (w, ?c w)) ?ks) d"
    using snoc.IH by simp
  have labels: "map weather_0_main (ds @ [d]) = ?ls @ [?w]" by simp
  show ?case
  proof (cases "?w \<in> set ?ls")
    case True
    have c1: "countStep (map (\<lambda>w. (w, ?c w)) ?ks) d
                 = map (\<lambda>w. (w, if w = ?w then ?c ?w + 1 else ?c w)) ?ks"
      using True
      by (simp add: countStep_def countOf_def Let_def map_of_tabulate assign_tabulate_present
            distinct_firstSeen set_firstSeen)
    have c2: "map (\<lambda>w. (w, if w = ?w then ?c ?w + 1 else ?c w)) ?ks = map (\<lambda>w. (w, ?c' w)) ?ks"
      by (rule map_cong) auto
    have fs: "firstSeen (?ls @ [?w]) = ?ks"
      using True by (simp add: firstSeen_snoc)
    show ?thesis by (simp only: step labels fs c1 c2)
  next
    case False
    then have zero: "?c ?w = 0" by (simp add: count_list_0_iff)
    have c1: "countStep (map (\<lambda>w. (w, ?c w)) ?ks) d = map (\<lambda>w. (w, ?c w)) ?ks @ [(?w, 1)]"
      using False
      by (simp add: countStep_def countOf_def Let_def map_of_tabulate assign_tabulate_absent
            set_firstSeen)
    have c2: "map (\<lambda>w. (w, ?c' w)) ?ks = map (\<lambda>w. (w, ?c w)) ?ks"
      using False by (intro map_cong) (auto simp add: set_firstSeen)
    have c3: "map (\<lambda>w. (w, ?c' w)) (?ks @ [?w]) = map (\<lambda>w. (w, ?c' w)) ?ks @ [(?w, 1)]"
      using zero by simp
    have fs: "firstSeen (?ls @ [?w]) = ?ks @ [?w]"
      using False by (simp add: firstSeen_snoc)
    show ?thesis by (simp only: step labels fs c1 c3 c2)
  qed
qed

text \<open>
  The \<^verbatim>\<open>reduce\<close> keeps its accumulator only while it is strictly greater, so it
  returns the last element among those of maximal count.
\<close>

lemma foldl_pick_last_max:
  fixes f :: "'a \<Rightarrow> nat"
  defines "pick \<equiv> (\<lambda>a b. if f a > f b then a else b)"
  shows "\<exists>pre post. x # xs = pre @ foldl pick x xs # post
           \<and> (\<forall>y\<in>set pre. f y \<le> f (foldl pick x xs))
           \<and> (\<forall>y\<in>set post. f y < f (foldl pick x xs))"
proof (induction xs arbitrary: x)
  case Nil
  have "[x] = [] @ foldl pick x [] # []" by simp
  then show ?case by fastforce
next
  case (Cons y ys)
  let ?r = "foldl pick (pick x y) ys"
  from Cons.IH [of "pick x y"] obtain pre post where
    split: "pick x y # ys = pre @ ?r # post"
    and pre: "\<forall>u\<in>set pre. f u \<le> f ?r"
    and post: "\<forall>u\<in>set post. f u < f ?r"
    by blast
  have r: "foldl pick x (y # ys) = ?r" by simp
  show ?case
  proof (cases pre)
    case Nil
    then have pr: "pick x y = ?r" and ys: "ys = post" using split by auto
    show ?thesis
    proof (cases "f x > f y")
      case True
      then have px: "pick x y = x" by (simp add: pick_def)
      have "x # y # ys = [] @ ?r # (y # post)" using pr ys px by simp
      moreover have "\<forall>u\<in>set (y # post). f u < f ?r" using True pr px post by auto
      moreover have "\<forall>u\<in>set []. f u \<le> f ?r" by simp
      ultimately show ?thesis unfolding r by blast
    next
      case False
      then have py: "pick x y = y" by (simp add: pick_def)
      have "x # y # ys = [x] @ ?r # post" using pr ys py by simp
      moreover have "\<forall>u\<in>set [x]. f u \<le> f ?r" using False pr py by auto
      ultimately show ?thesis unfolding r using post by blast
    qed
  next
    case (Cons p pre')
    then have p: "p = pick x y" and ys: "ys = pre' @ ?r # post" using split by auto
    have "f (pick x y) \<le> f ?r" using pre Cons p by auto
    then have "f x \<le> f ?r" "f y \<le> f ?r" by (auto simp add: pick_def split: if_splits)
    then have "\<forall>u\<in>set (x # y # pre'). f u \<le> f ?r" using pre Cons by auto
    moreover have "x # y # ys = (x # y # pre') @ ?r # post" using ys by simp
    ultimately show ?thesis unfolding r using post by blast
  qed
qed

lemma foldl_min_Min: "foldl min (x::real) xs = Min (set (x # xs))"
proof -
  have "foldl min x xs = fold min xs x"
    by (induction xs arbitrary: x) (simp_all add: min.commute)
  then show ?thesis by (simp only: Min.set_eq_fold)
qed

lemma foldl_max_Max: "foldl max (x::real) xs = Max (set (x # xs))"
proof -
  have "foldl max x xs = fold max xs x"
    by (induction xs arbitrary: x) (simp_all add: max.commute)
  then show ?thesis by (simp only: Max.set_eq_fold)
qed

lemma foldl_plus_sum_list: "foldl (+) (a::real) xs = a + sum_list xs"
  by (induction xs arbitrary: a) auto

lemma foldl_rain_sum_list:
  "foldl (\<lambda>sum d. sum + (case rain_3h d of None \<Rightarrow> 0 | Some r \<Rightarrow> r)) (a::real) ds
     = a + sum_list (map (\<lambda>d. case rain_3h d of None \<Rightarrow> 0 | Some r \<Rightarrow> r) ds)"
  by (induction ds arbitrary: a) auto

lemma mainWeather_last_max:
  assumes "dayData \<noteq> []"
  shows "\<exists>l pre post. mainWeather dayData = Inr l
           \<and> firstSeen (map weather_0_main dayData) = pre @ l # post
           \<and> (\<forall>x\<in>set pre. count_list (map weather_0_main dayData) x
                             \<le> count_list (map weather_0_main dayData) l)
           \<and> (\<forall>x\<in>set post. count_list (map weather_0_main dayData) x
                             < count_list (map weather_0_main dayData) l)"
proof -
  define ls where "ls = map weather_0_main dayData"
  define wc where "wc = foldl countStep [] dayData"
  define c where "c = countOf wc"
  define pick where "pick = (\<lambda>a b. if c a > c b then a else b)"
  have wc: "wc = map (\<lambda>w. (w, count_list ls w)) (firstSeen ls)"
    unfolding wc_def ls_def by (rule weatherCounts_eq)
  have keys: "map fst wc = firstSeen ls"
    unfolding wc by (simp add: comp_def)
  have "ls \<noteq> []" using assms by (simp add: ls_def)
  then have "set (firstSeen ls) \<noteq> {}" by (simp add: set_firstSeen)
  then obtain k ks where ks: "firstSeen ls = k # ks" by (cases "firstSeen ls") auto
  have cnt: "c w = count_list ls w" if "w \<in> set ls" for w
    using that unfolding c_def countOf_def wc by (simp add: map_of_tabulate set_firstSeen)
  define l where "l = foldl pick k ks"
  have "\<exists>pre post. k # ks = pre @ l # post
          \<and> (\<forall>y\<in>set pre. c y \<le> c l) \<and> (\<forall>y\<in>set post. c y < c l)"
    unfolding l_def pick_def by (rule foldl_pick_last_max)
  then obtain pre post where
    split: "k # ks = pre @ l # post"
    and pre: "\<forall>y\<in>set pre. c y \<le> c l"
    and post: "\<forall>y\<in>set post. c y < c l"
    by blast
  have mw: "mainWeather dayData = Inr l"
    unfolding mainWeather_def Let_def wc_def [symmetric] keys ks reduce1.simps
      c_def [symmetric] pick_def [symmetric] l_def ..
  have "set (firstSeen ls) = set ls" by (rule set_firstSeen)
  then have mem: "set (pre @ l # post) = set ls" using split ks by simp
  have pre': "\<forall>x\<in>set pre. count_list ls x \<le> count_list ls l"
  proof
    fix x assume x: "x \<in> set pre"
    then have "x \<in> set ls" "l \<in> set ls" using mem by auto
    then show "count_list ls x \<le> count_list ls l" using pre x cnt by metis
  qed
  have post': "\<forall>x\<in>set post. count_list ls x < count_list ls l"
  proof
    fix x assume x: "x \<in> set post"
    then have "x \<in> set ls" "l \<in> set ls" using mem by auto
    then show "count_list ls x < count_list ls l" using post x cnt by metis
  qed
  have "firstSeen ls = pre @ l # post" using split ks by simp
  then show ?thesis using mw pre' post' unfolding ls_def by blast
qed

lemma aggregateDay_nonempty:
  assumes "dayData \<noteq> []"
  shows "\<exists>mw. mainWeather dayData = Inr mw
     \<and> aggregateDay (dateStr, dayData) =
         Inr \<lparr>forecast_date = dateStr * msPerDay,
              temp_min = Math_min (map main_temp dayData),
              temp_max = Math_max (map main_temp dayData),
              weather_main = mw,
              weather_description = weather_0_description (dayData ! (length dayData div 2)),
              precipitation =
                foldl (\<lambda>sum d. sum + (case rain_3h d of None \<Rightarrow> 0 | Some r \<Rightarrow> r)) 0 dayData,
              wind = foldl (+) 0 (map wind_speed dayData) / real (length dayData),
              humidity = foldl (+) 0 (map main_humidity dayData) / real (length dayData),
              icon = weather_0_icon (dayData ! (length dayData div 2))\<rparr>"
proof -
  from mainWeather_last_max [OF assms] obtain mw where mw: "mainWeather dayData = Inr mw"
    by blast
  have "length dayData div 2 < length dayData" using assms by simp
  then show ?thesis using mw by (simp add: aggregateDay_def Let_def)
qed

lemma forEachDay_dates:
  assumes "\<forall>e\<in>set es. snd e \<noteq> []"
  shows "\<exists>days. forEachDay es = Inr days
           \<and> map forecast_date days = map (\<lambda>e. fst e * msPerDay) es"
  using assms
proof (induction es)
  case Nil
  then show ?case by simp
next
  case (Cons e es)
  then obtain days where days: "forEachDay es = Inr days"
    "map forecast_date days = map (\<lambda>e. fst e * msPerDay) es" by auto
  have "snd e \<noteq> []" using Cons.prems by simp
  from aggregateDay_nonempty [OF this, of "fst e"]
  obtain day where "aggregateDay e = Inr day" "forecast_date day = fst e * msPerDay"
    by auto
  then show ?case using days by simp
qed

lemma aggregateForecast_dates:
  "\<exists>days. aggregateForecast z items = Inr days
     \<and> map forecast_date days
          = map (\<lambda>d. d * msPerDay) (take 7 (firstSeen (map (dateKey z) items)))"
proof -
  have "\<forall>e\<in>set (take 7 (groupByDay z items)). snd e \<noteq> []"
    using groupByDay_nonempty by (metis in_set_takeD)
  from forEachDay_dates [OF this] obtain days where
    ok: "forEachDay (take 7 (groupByDay z items)) = Inr days"
    and dates: "map forecast_date days = map (\<lambda>e. fst e * msPerDay) (take 7 (groupByDay z items))"
    by blast
  have "map (\<lambda>e. fst e * msPerDay) (take 7 (groupByDay z items))
          = map (\<lambda>d. d * msPerDay) (take 7 (firstSeen (map (dateKey z) items)))"
    by (simp add: groupByDay_eq take_map comp_def)
  then show ?thesis using ok dates by (simp add: aggregateForecast_def slice_0_7)
qed

lemma eightDays_card: "8 \<le> card (dateKey utc ` set eightDays)"
  by (simp add: eightDays_def dateKey_def LocalTime_def utc_def msPerDay_def entry_def)

lemma eightDays_sorted: "sorted (map (dateKey utc) eightDays)"
  by (simp add: eightDays_def dateKey_def LocalTime_def utc_def msPerDay_def entry_def)

lemma rainyDay_nonempty: "rainyDay \<noteq> []"
  by (simp add: rainyDay_def)

subsection \<open>Dominant condition\<close>

text \<open>
  C2, as claimed: the dominant condition of a non-empty day has maximal count, and among
  labels of maximal count it is the first in first-seen order. The second half fails: for
  a day with one entry Rain and then one entry Clear both labels have the maximal count
  1, Rain is seen first, and the function returns Clear.
\<close>

theorem dominant_condition_tie_counterexample:
  "mainWeather [entry 0 10 ''Rain'', entry 10800 11 ''Clear''] = Inr ''Clear''
   \<and> firstWithMaxCount [''Rain'', ''Clear''] = Some ''Rain''"
  by (simp add: mainWeather_def Let_def countStep_def countOf_def entry_def
       firstWithMaxCount_def firstSeen_def)

text \<open>
  C2, amended: for every non-empty day group the aggregation of the dominant condition
  returns a label \<open>l\<close> of the group whose count is maximal among all labels, and every
  label first seen after \<open>l\<close> has a strictly smaller count: of the labels that share the
  maximal count the selected one is the last in first-seen order.
\<close>

theorem dominant_condition_last_of_the_most_frequent:
  assumes "dayData \<noteq> []"
  shows "\<exists>l pre post. mainWeather dayData = Inr l
           \<and> firstSeen (map weather_0_main dayData) = pre @ l # post
           \<and> (\<forall>x. count_list (map weather_0_main dayData) x
                      \<le> count_list (map weather_0_main dayData) l)
           \<and> (\<forall>x\<in>set post. count_list (map weather_0_main dayData) x
                             < count_list (map weather_0_main dayData) l)"
proof -
  let ?ls = "map weather_0_main dayData"
  from mainWeather_last_max [OF assms] obtain l pre post where
    mw: "mainWeather dayData = Inr l"
    and fs: "firstSeen ?ls = pre @ l # post"
    and pre: "\<forall>x\<in>set pre. count_list ?ls x \<le> count_list ?ls l"
    and post: "\<forall>x\<in>set post. count_list ?ls x < count_list ?ls l"
    by blast
  have "count_list ?ls x \<le> count_list ?ls l" for x
  proof (cases "x \<in> set ?ls")
    case True
    then have "x \<in> set (pre @ l # post)" using fs set_firstSeen [of ?ls] by simp
    then show ?thesis using pre post by (auto simp add: less_imp_le)
  next
    case False
    then show ?thesis by (simp add: count_list_0_iff)
  qed
  then show ?thesis using mw fs post by blast
qed

theorem dominant_condition_last_of_the_most_frequent_witness:
  "rainyDay \<noteq> []
   \<and> (\<exists>l pre post. mainWeather rainyDay = Inr l
           \<and> firstSeen (map weather_0_main rainyDay) = pre @ l # post
           \<and> (\<forall>x. count_list (map weather_0_main rainyDay) x
                      \<le> count_list (map weather_0_main rainyDay) l)
           \<and> (\<forall>x\<in>set post. count_list (map weather_0_main rainyDay) x
                             < count_list (map weather_0_main rainyDay) l))
   \<and> mainWeather rainyDay = Inr ''Rain''"
proof -
  have h: "rainyDay \<noteq> []" by (rule rainyDay_nonempty)
  have v: "mainWeather rainyDay = Inr ''Rain''"
    by (simp add: rainyDay_def mainWeather_def Let_def countStep_def countOf_def entry_def)
  show ?thesis
    by (rule conjI [OF h conjI [OF dominant_condition_last_of_the_most_frequent [OF h] v]])
qed

subsection \<open>Order and number of the days\<close>

text \<open>
  C3, as claimed: for every list of entries, sorted or not, the days of the forecast
  ascend by date. The aggregation never sorts: two entries, the later day first, give the
  later day first.
\<close>

theorem forecast_order_counterexample:
  "map_sum id (map forecast_date)
     (aggregateForecast utc [entry 86400 10 ''Rain'', entry 0 11 ''Clear'']) = Inr [86400000, 0]
   \<and> \<not> sorted [86400000, 0 :: int]"
  by (simp add: aggregateForecast_def slice_def relIndex_def groupByDay_def groupStep_def
       dateKey_def LocalTime_def utc_def msPerDay_def entry_def Let_def
       aggregateDay_def mainWeather_def countStep_def countOf_def)

text \<open>
  C3, amended: for every list of entries, sorted or not, the aggregation succeeds and
  the dates of its days are the first seven distinct calendar days of the input in the
  order in which they are first seen; nothing is sorted. When the entries arrive in
  non-decreasing order of their calendar day, these dates ascend strictly.
\<close>

theorem forecast_days_in_first_seen_order:
  "\<exists>days. aggregateForecast z items = Inr days
     \<and> map forecast_date days
          = map (\<lambda>d. d * msPerDay) (take 7 (firstSeen (map (dateKey z) items)))
     \<and> (sorted (map (dateKey z) items) \<longrightarrow> sorted_wrt (<) (map forecast_date days))"
proof -
  from aggregateForecast_dates [of z items] obtain days where
    ok: "aggregateForecast z items = Inr days"
    and dates: "map forecast_date days
                  = map (\<lambda>d. d * msPerDay) (take 7 (firstSeen (map (dateKey z) items)))"
    by blast
  have "sorted_wrt (<) (map forecast_date days)" if srt: "sorted (map (dateKey z) items)"
  proof -
    have "sorted_wrt (<) (take 7 (firstSeen (map (dateKey z) items)))"
      using srt by (intro sorted_wrt_take firstSeen_sorted)
    then have "sorted_wrt (<)
        (map (\<lambda>d. d * msPerDay) (take 7 (firstSeen (map (dateKey z) items))))"
      unfolding sorted_wrt_map by (rule sorted_wrt_mono_rel [rotated]) (simp add: msPerDay_def)
    then show ?thesis by (simp only: dates)
  qed
  then show ?thesis using ok dates by blast
qed

theorem forecast_days_in_first_seen_order_witness:
  "sorted (map (dateKey utc) eightDays)
   \<and> (\<exists>days. aggregateForecast utc eightDays = Inr days
           \<and> map forecast_date days
                = map (\<lambda>d. d * msPerDay) (take 7 (firstSeen (map (dateKey utc) eightDays)))
           \<and> sorted_wrt (<) (map forecast_date days))"
proof -
  from forecast_days_in_first_seen_order [of utc eightDays] obtain days where
    ok: "aggregateForecast utc eightDays = Inr days"
    and dates: "map forecast_date days
                  = map (\<lambda>d. d * msPerDay) (take 7 (firstSeen (map (dateKey utc) eightDays)))"
    and asc: "sorted (map (dateKey utc) eightDays) \<longrightarrow> sorted_wrt (<) (map forecast_date days)"
    by blast
  have "sorted_wrt (<) (map forecast_date days)" using asc eightDays_sorted by (rule mp)
  then show ?thesis using eightDays_sorted ok dates by blast
qed

text \<open>
  C8. For every input with eight or more distinct calendar days the aggregation succeeds
  with exactly seven days, and these are the first seven distinct days in first-seen
  order, in that order.
\<close>

theorem forecast_capped_at_first_seven_days:
  assumes "8 \<le> card (dateKey z ` set items)"
  shows "\<exists>days. aggregateForecast z items = Inr days
           \<and> length days = 7
           \<and> map forecast_date days
                = map (\<lambda>d. d * msPerDay) (take 7 (firstSeen (map (dateKey z) items)))"
proof -
  from aggregateForecast_dates [of z items] obtain days where
    ok: "aggregateForecast z items = Inr days"
    and dates: "map forecast_date days
                  = map (\<lambda>d. d * msPerDay) (take 7 (firstSeen (map (dateKey z) items)))"
    by blast
  have "length (firstSeen (map (dateKey z) items)) = card (dateKey z ` set items)"
    by (simp add: length_firstSeen)
  then have "length (take 7 (firstSeen (map (dateKey z) items))) = 7" using assms by simp
  moreover have "length days = length (take 7 (firstSeen (map (dateKey z) items)))"
    using arg_cong [OF dates, of length] by (simp only: length_map)
  ultimately have "length days = 7" by simp
  then show ?thesis using ok dates by simp
qed

theorem forecast_capped_at_first_seven_days_witness:
  "8 \<le> card (dateKey utc ` set eightDays)
   \<and> (\<exists>days. aggregateForecast utc eightDays = Inr days
           \<and> length days = 7
           \<and> map forecast_date days
                = map (\<lambda>d. d * msPerDay) (take 7 (firstSeen (map (dateKey utc) eightDays))))"
  by (rule conjI [OF eightDays_card forecast_capped_at_first_seven_days [OF eightDays_card]])

subsection \<open>The aggregates of a day\<close>

text \<open>
  C9. For every non-empty day group the aggregation of the day succeeds, the minimal and
  the maximal temperature of the day are the minimum and the maximum of the
  temperatures of the group (so the first is at most the second), the precipitation is
  the sum of the amounts of the group with a missing amount counted as 0, and wind and
  humidity are the arithmetic means of the group.
\<close>

theorem day_aggregates:
  assumes "dayData \<noteq> []"
  shows "\<exists>day. aggregateDay (dateStr, dayData) = Inr day
     \<and> temp_min day = Num (Min (set (map main_temp dayData)))
     \<and> temp_max day = Num (Max (set (map main_temp dayData)))
     \<and> jle (temp_min day) (temp_max day)
     \<and> precipitation day
          = sum_list (map (\<lambda>d. case rain_3h d of None \<Rightarrow> 0 | Some r \<Rightarrow> r) dayData)
     \<and> wind day = sum_list (map wind_speed dayData) / real (length dayData)
     \<and> humidity day = sum_list (map main_humidity dayData) / real (length dayData)"
proof -
  from aggregateDay_nonempty [OF assms, of dateStr] obtain day where
    day: "aggregateDay (dateStr, dayData) = Inr day"
    and tmin: "temp_min day = Math_min (map main_temp dayData)"
    and tmax: "temp_max day = Math_max (map main_temp dayData)"
    and rain: "precipitation day =
         foldl (\<lambda>sum d. sum + (case rain_3h d of None \<Rightarrow> 0 | Some r \<Rightarrow> r)) 0 dayData"
    and wnd: "wind day = foldl (+) 0 (map wind_speed dayData) / real (length dayData)"
    and hum: "humidity day = foldl (+) 0 (map main_humidity dayData) / real (length dayData)"
    by auto
  obtain t ts where ts: "map main_temp dayData = t # ts" using assms by (cases dayData) auto
  have mn: "Math_min (map main_temp dayData) = Num (Min (set (map main_temp dayData)))"
    unfolding ts by (simp only: Math_min.simps foldl_min_Min)
  have mx: "Math_max (map main_temp dayData) = Num (Max (set (map main_temp dayData)))"
    unfolding ts by (simp only: Math_max.simps foldl_max_Max)
  have "Min (set (t # ts)) \<le> t" "t \<le> Max (set (t # ts))" by simp_all
  then have "Min (set (map main_temp dayData)) \<le> Max (set (map main_temp dayData))"
    unfolding ts by (rule order_trans)
  then have le: "jle (temp_min day) (temp_max day)" by (simp add: tmin tmax mn mx)
  show ?thesis using day le
    by (simp add: tmin tmax mn mx rain wnd hum foldl_rain_sum_list foldl_plus_sum_list)
qed

theorem day_aggregates_witness:
  "rainyDay \<noteq> [] \<and> aggregateDay (0, rainyDay) =
     Inr \<lparr>forecast_date = 0, temp_min = Num 10, temp_max = Num 20, weather_main = ''Rain'',
          weather_description = ''Rain'', precipitation = 0, wind = 4, humidity = 60,
          icon = ''10d''\<rparr>
   \<and> Min (set (map main_temp rainyDay)) = 10 \<and> Max (set (map main_temp rainyDay)) = 20"
proof -
  have e: "aggregateDay (0, rainyDay) =
     Inr \<lparr>forecast_date = 0, temp_min = Num 10, temp_max = Num 20, weather_main = ''Rain'',
          weather_description = ''Rain'', precipitation = 0, wind = 4, humidity = 60,
          icon = ''10d''\<rparr>"
    by (simp add: rainyDay_def aggregateDay_def mainWeather_def Let_def countStep_def
          countOf_def entry_def)
  from day_aggregates [OF rainyDay_nonempty, of 0] show ?thesis
    using rainyDay_nonempty e by auto
qed

end
